theory Spec2Isabelle
  imports Complex_Main "HOL-Library.Multiset"
begin

section \<open>The data streamer of utils.py\<close>

text \<open>
  The development embeds \<^verbatim>\<open>SamplingRate\<close> and \<^verbatim>\<open>DataStreamer\<close> of
  \<^verbatim>\<open>src/utils.py\<close>. Conventions of the embedding:
  \<^item> a CSV file stands for its parsed content: a feature file is a list of rows of numbers, a
    time file a list of numbers, a label file a list of strings (file I/O is not modelled);
  \<^item> Python floats are read as real numbers, so rounding is not modelled; every concrete
    input below uses small integers, on which both arithmetics agree;
  \<^item> Python integers (indices, skips, the cursor) are \<^typ>\<open>int\<close>;
  \<^item> an exception is the \<open>Inl\<close> side of a sum, and a loop is a recursive function over the
    list it iterates, with the variables it updates passed along;
  \<^item> \<^verbatim>\<open>np.array\<close> keeps the nested list it is given (no ragged input is used below).
\<close>

subsection \<open>Errors and Python's list operations\<close>

datatype error = IndexError | ConfigurationError

definition bindE :: "error + 'a \<Rightarrow> ('a \<Rightarrow> error + 'b) \<Rightarrow> error + 'b" where
  "bindE m f = (case m of Inl e \<Rightarrow> Inl e | Inr v \<Rightarrow> f v)"

text \<open>\<^verbatim>\<open>xs[i]\<close> on a list: a negative index counts from the end, anything outside raises.\<close>

definition py_index :: "'a list \<Rightarrow> int \<Rightarrow> error + 'a" where
  "py_index xs i =
     (if 0 \<le> i \<and> i < int (length xs) then Inr (xs ! nat i)
      else if i < 0 \<and> - int (length xs) \<le> i then Inr (xs ! nat (int (length xs) + i))
      else Inl IndexError)"

text \<open>\<^verbatim>\<open>xs[a:b]\<close>: both bounds are clipped to the sequence, negative ones count from the end.\<close>

definition slice_bound :: "nat \<Rightarrow> int \<Rightarrow> nat" where
  "slice_bound n i = (if i < 0 then nat (max (int n + i) 0) else nat (min i (int n)))"

definition py_slice :: "'a list \<Rightarrow> int \<Rightarrow> int \<Rightarrow> 'a list" where
  "py_slice xs a b =
     take (slice_bound (length xs) b - slice_bound (length xs) a)
          (drop (slice_bound (length xs) a) xs)"

text \<open>Truth value of \<^verbatim>\<open>if files:\<close> for a value that is \<^verbatim>\<open>None\<close> or a list.\<close>

fun truthy :: "'a list option \<Rightarrow> bool" where
  "truthy None = False"
| "truthy (Some xs) = (xs \<noteq> [])"

subsection \<open>SamplingRate\<close>

record SamplingRate =
  intervals :: "real list"
  x_start :: int
  window_skip :: int
  step_size :: int

definition window_size :: "SamplingRate \<Rightarrow> nat" where
  "window_size sd = length (intervals sd)"

definition FLOAT_ERROR :: real where
  "FLOAT_ERROR = 1 / 10 ^ 8"

subsection \<open>The window loop (lines 106 to 113)\<close>

text \<open>
  One run of \<^verbatim>\<open>for delta in self.sample_deltas.intervals\<close> for the label time
  \<open>y_time\<close>, from the search position \<open>window_index\<close> and with the rows collected so far
  in \<open>samples\<close>. Line 108 reads \<^verbatim>\<open>feature_times[window_index]\<close> before line 109 compares
  the index with the length.
\<close>

fun window_loop ::
  "SamplingRate \<Rightarrow> real list list \<Rightarrow> real list \<Rightarrow> real \<Rightarrow> int \<Rightarrow> real list list \<Rightarrow>
   real list \<Rightarrow> error + real list list" where
  "window_loop sd feats feature_times y_time window_index samples [] = Inr samples"
| "window_loop sd feats feature_times y_time window_index samples (delta # ds) =
     bindE (py_index feature_times window_index) (\<lambda>x_time.
       if window_index < int (length feature_times)
          \<and> \<bar>y_time + delta - x_time\<bar> \<le> FLOAT_ERROR
       then bindE (py_index feats window_index) (\<lambda>row.
              window_loop sd feats feature_times y_time
                (window_index + window_skip sd) (samples @ [row]) ds)
       else bindE (py_index feats 0) (\<lambda>row0.
              window_loop sd feats feature_times y_time
                window_index (samples @ [replicate (length row0) 0]) ds))"

subsection \<open>The label loop (lines 102 to 115)\<close>

text \<open>
  \<^verbatim>\<open>for y_index, y_time in enumerate(label_times)\<close>: \<open>x_index\<close> is the base position,
  \<open>acc\<close> is \<^verbatim>\<open>self.features\<close>.
\<close>

fun label_loop ::
  "SamplingRate \<Rightarrow> real list list \<Rightarrow> real list \<Rightarrow> int \<Rightarrow> real list list list \<Rightarrow>
   real list \<Rightarrow> error + real list list list" where
  "label_loop sd feats feature_times x_index acc [] = Inr acc"
| "label_loop sd feats feature_times x_index acc (y_time # ys) =
     bindE (window_loop sd feats feature_times y_time (max x_index 0) [] (intervals sd))
       (\<lambda>samples. label_loop sd feats feature_times (x_index + step_size sd)
                     (acc @ [samples]) ys)"

text \<open>The alignment of one file group: line 102 sets the base to \<^verbatim>\<open>x_start\<close>.\<close>

definition align ::
  "SamplingRate \<Rightarrow> real list list \<Rightarrow> real list \<Rightarrow> real list \<Rightarrow> error + real list list list" where
  "align sd feats feature_times label_times =
     label_loop sd feats feature_times (x_start sd) [] label_times"

subsection \<open>DataStreamer\<close>

text \<open>
  The fields of the class that the loading, shuffling and batching code reads or writes.
  \<open>labels\<close> is \<^verbatim>\<open>None\<close> until \<^verbatim>\<open>initialize\<close> assigns it. The class balancer is the
  caller's object, taken as the function its \<^verbatim>\<open>balance\<close> method computes. The class
  statistics of lines 127 to 131 (\<^verbatim>\<open>classes\<close> and the two weight arrays) touch none of
  the fields below and are left out.
\<close>

record DataStreamer =
  x_files :: "real list list list"
  y_files :: "string list list option"
  x_time_files :: "real list list option"
  y_time_files :: "real list list option"
  features :: "real list list list"
  n_features :: "nat option"
  labels :: "string list option"
  n_samples :: nat
  sample_deltas :: SamplingRate
  do_shuffle :: bool
  class_balancer ::
    "(real list list list \<Rightarrow> string list \<Rightarrow> real list list list \<times> string list) option"
  batch_size :: int
  index :: int

definition label_list :: "DataStreamer \<Rightarrow> string list" where
  "label_list s = (case labels s of None \<Rightarrow> [] | Some ls \<Rightarrow> ls)"

text \<open>
  \<^verbatim>\<open>if files: v = read_csv_file(files[file_index])\<close>: the variable keeps its old value
  when the file list is \<^verbatim>\<open>None\<close> or empty.
\<close>

definition read_optional :: "'a list option \<Rightarrow> nat \<Rightarrow> 'a \<Rightarrow> error + 'a" where
  "read_optional files file_index old =
     (case files of
        None \<Rightarrow> Inr old
      | Some fs \<Rightarrow> if fs = [] then Inr old else py_index fs (int file_index))"

subsection \<open>The file loop (lines 92 to 115)\<close>

text \<open>
  \<^verbatim>\<open>for file_index, x_file_path in enumerate(self.x_files)\<close>. The locals
  \<open>feature_times\<close> and \<open>label_times\<close> live across iterations. Line 94 assigns
  \<^verbatim>\<open>self.n_features\<close> in every iteration. Line 96 appends the label file, which is
  appending nothing when there are no label files.
\<close>

fun file_loop ::
  "DataStreamer \<Rightarrow> nat \<Rightarrow> real list \<Rightarrow> real list \<Rightarrow> real list list list \<Rightarrow>
   error + DataStreamer" where
  "file_loop s file_index feature_times label_times [] = Inr s"
| "file_loop s file_index feature_times label_times (feats # rest) =
     bindE (py_index feats 0) (\<lambda>row0.
     bindE (read_optional (y_files s) file_index []) (\<lambda>ys.
     bindE (read_optional (x_time_files s) file_index feature_times) (\<lambda>feature_times'.
     bindE (read_optional (y_time_files s) file_index label_times) (\<lambda>label_times'.
     bindE (label_loop (sample_deltas s) feats feature_times' (x_start (sample_deltas s))
              (features s) label_times') (\<lambda>fs.
       file_loop
         (s\<lparr>features := fs,
            labels := Some (label_list s @ ys),
            n_features := Some (length row0),
            n_samples := (if truthy (y_time_files s) then n_samples s + length label_times'
                          else n_samples s)\<rparr>)
         (Suc file_index) feature_times' label_times' rest)))))"

text \<open>Lines 88 to 118: the accumulators start empty, then the file loop runs.\<close>

definition load :: "DataStreamer \<Rightarrow> error + DataStreamer" where
  "load s = file_loop (s\<lparr>features := [], labels := Some []\<rparr>) 0 [] [] (x_files s)"

subsection \<open>Shuffling (lines 119 to 123)\<close>

text \<open>
  Modelled from the spec: \<^verbatim>\<open>shuffle\<close> is imported from scikit-learn and is not part of
  the source file. The spec has it permute the arrays it is given jointly, the same
  permutation applied to each. The permutation is the random draw: the list \<open>p\<close> of the
  positions that the samples are taken from, a rearrangement of \<open>[0..<n]\<close>.
\<close>

definition permute :: "nat list \<Rightarrow> 'a list \<Rightarrow> 'a list" where
  "permute p xs = map (\<lambda>i. xs ! i) p"

text \<open>
  Modelled from the spec: \<^verbatim>\<open>shuffle(features)\<close>, the call of line 123 with one array;
  without labels the features are permuted alone.
\<close>

definition shuffle1 :: "nat list \<Rightarrow> 'a list \<Rightarrow> 'a list" where
  "shuffle1 p xs = permute p xs"

text \<open>
  Modelled from the spec: \<^verbatim>\<open>shuffle(features, labels)\<close>, the call of line 121 with two
  arrays; it fails with ConfigurationError when the labels differ in length from the
  features.
\<close>

definition shuffle2 :: "nat list \<Rightarrow> 'a list \<Rightarrow> 'b list \<Rightarrow> error + 'a list \<times> 'b list" where
  "shuffle2 p xs ys =
     (if length xs \<noteq> length ys then Inl ConfigurationError
      else Inr (permute p xs, permute p ys))"

text \<open>Lines 119 to 123, which are in the source file.\<close>

definition shuffle_stage :: "nat list \<Rightarrow> DataStreamer \<Rightarrow> error + DataStreamer" where
  "shuffle_stage p s =
     (if do_shuffle s then
        (if length (label_list s) \<noteq> 0
         then bindE (shuffle2 p (features s) (label_list s))
                (\<lambda>r. Inr (s\<lparr>features := fst r, labels := Some (snd r)\<rparr>))
         else Inr (s\<lparr>features := shuffle1 p (features s)\<rparr>))
      else Inr s)"

subsection \<open>Balancing (lines 124 and 125)\<close>

definition balance_stage :: "DataStreamer \<Rightarrow> DataStreamer" where
  "balance_stage s =
     (case class_balancer s of
        None \<Rightarrow> s
      | Some balance \<Rightarrow>
          if length (label_list s) \<noteq> 0
          then s\<lparr>features := fst (balance (features s) (label_list s)),
                 labels := Some (snd (balance (features s) (label_list s)))\<rparr>
          else s)"

subsection \<open>initialize and next\<close>

text \<open>\<open>p\<close> is the permutation that the shuffle draws, when it is called.\<close>

definition initialize :: "nat list \<Rightarrow> DataStreamer \<Rightarrow> error + DataStreamer" where
  "initialize p s =
     bindE (load s) (\<lambda>s1.
     bindE (shuffle_stage p s1) (\<lambda>s2.
       Inr ((balance_stage s2)\<lparr>index := 0\<rparr>)))"

text \<open>
  The method \<^verbatim>\<open>next\<close> (lines 133 to 137); \<open>next\<close> is a keyword of the proof language,
  hence the longer name. It returns the two batches and the streamer with the cursor moved.
\<close>

definition next_batch ::
  "DataStreamer \<Rightarrow> (real list list list \<times> string list option) \<times> DataStreamer" where
  "next_batch s =
     ((py_slice (features s) (index s) (index s + batch_size s),
       (case labels s of
          None \<Rightarrow> None
        | Some ls \<Rightarrow> Some (py_slice ls (index s) (index s + batch_size s)))),
      s\<lparr>index := index s + batch_size s\<rparr>)"

text \<open>
  The constructor (lines 65 to 84) up to its call of \<^verbatim>\<open>initialize\<close>, without a class
  balancer. \<^verbatim>\<open>features\<close> and \<^verbatim>\<open>index\<close> start as \<^verbatim>\<open>None\<close> in the source and are
  assigned by \<^verbatim>\<open>initialize\<close> before anything reads them; here they start as \<open>[]\<close> and
  \<open>0\<close>. The window spec is a required argument here.
\<close>

definition new_streamer ::
  "real list list list \<Rightarrow> string list list option \<Rightarrow> real list list option \<Rightarrow>
   real list list option \<Rightarrow> SamplingRate \<Rightarrow> bool \<Rightarrow> int \<Rightarrow> DataStreamer" where
  "new_streamer x y x_time y_time deltas shuffle_flag batch =
     \<lparr>x_files = x, y_files = y, x_time_files = x_time, y_time_files = y_time,
      features = [], n_features = None, labels = None, n_samples = 0,
      sample_deltas = deltas, do_shuffle = shuffle_flag, class_balancer = None,
      batch_size = batch, index = 0\<rparr>"

subsection \<open>Notions used to state the properties\<close>

text \<open>Results of a sequence of steps that stops at the first exception.\<close>

fun collect :: "(error + 'a) list \<Rightarrow> error + 'a list" where
  "collect [] = Inr []"
| "collect (m # ms) = bindE m (\<lambda>v. bindE (collect ms) (\<lambda>vs. Inr (v # vs)))"

text \<open>The time column that the file loop holds for group \<open>file_index\<close>.\<close>

definition group_times :: "real list list option \<Rightarrow> nat \<Rightarrow> real list" where
  "group_times files file_index =
     (case read_optional files file_index [] of Inl e \<Rightarrow> [] | Inr ts \<Rightarrow> ts)"

text \<open>The streamer after \<open>k\<close> calls of \<^verbatim>\<open>next\<close>, and the batches of \<open>n\<close> calls.\<close>

fun advance :: "nat \<Rightarrow> DataStreamer \<Rightarrow> DataStreamer" where
  "advance 0 s = s"
| "advance (Suc k) s = advance k (snd (next_batch s))"

fun batches :: "nat \<Rightarrow> DataStreamer \<Rightarrow> (real list list list \<times> string list option) list" where
  "batches 0 s = []"
| "batches (Suc n) s = fst (next_batch s) # batches n (snd (next_batch s))"

subsection \<open>Concrete inputs\<close>

text \<open>
  The end-to-end example of the specification: six feature rows \<open>[i]\<close> at the times
  \<open>0\<close> to \<open>5\<close>, one label \<open>A\<close> at time \<open>3\<close>, offsets \<open>-2, -1, 0\<close>, skip and stride \<open>1\<close>;
  the start index is the argument.
\<close>

definition spec_example :: "int \<Rightarrow> DataStreamer" where
  "spec_example start =
     new_streamer [[[0], [1], [2], [3], [4], [5]]] (Some [[''A'']])
       (Some [[0, 1, 2, 3, 4, 5]]) (Some [[3]])
       \<lparr>intervals = [-2, -1, 0], x_start = start, window_skip = 1, step_size = 1\<rparr> False 1"

definition one_step :: SamplingRate where
  "one_step = \<lparr>intervals = [0], x_start = 0, window_skip = 1, step_size = 1\<rparr>"

text \<open>Two feature rows and three labels: the base of the third label is index \<open>2\<close>.\<close>

definition labels_past_end :: DataStreamer where
  "labels_past_end =
     new_streamer [[[7], [8]]] None (Some [[0, 1]]) (Some [[0, 1, 2]]) one_step False 1"

text \<open>The first offset matches the last feature row, which moves the search to index \<open>3\<close>.\<close>

definition window_past_end :: DataStreamer where
  "window_past_end =
     new_streamer [[[0], [1], [2]]] None (Some [[0, 1, 2]]) (Some [[2]])
       \<lparr>intervals = [0, 1], x_start = 2, window_skip = 1, step_size = 1\<rparr> False 1"

definition two_groups :: DataStreamer where
  "two_groups =
     new_streamer [[[10], [11], [12]], [[20], [21], [22]]] (Some [[''a'', ''b''], [''c'', ''d'']])
       (Some [[0, 1, 2], [0, 1, 2]]) (Some [[0, 1], [0, 1]]) one_step False 1"

text \<open>Two offsets one time step apart, searched from index \<open>1\<close>.\<close>

definition two_offsets :: SamplingRate where
  "two_offsets = \<lparr>intervals = [0, 1], x_start = 1, window_skip = 1, step_size = 1\<rparr>"

definition hit_and_miss :: SamplingRate where
  "hit_and_miss = \<lparr>intervals = [-5, 0, 1], x_start = 3, window_skip = 1, step_size = 1\<rparr>"

text \<open>Feature files \<open>x\<close> of which the first has one label at time \<open>0\<close>, the second none.\<close>

definition widths_streamer :: "real list list list \<Rightarrow> DataStreamer" where
  "widths_streamer x =
     new_streamer x None (Some [[0], [0]]) (Some [[0], []]) one_step False 1"

text \<open>A label file with no rows beside one feature row and one label time.\<close>

definition shuffled_empty_labels :: DataStreamer where
  "shuffled_empty_labels =
     new_streamer [[[5]]] (Some [[]]) (Some [[0]]) (Some [[0]]) one_step True 1"

definition shuffled_mismatch :: DataStreamer where
  "shuffled_mismatch =
     new_streamer [[[5]]] (Some [[''a'', ''b'']]) (Some [[0]]) (Some [[0]]) one_step True 1"

definition shuffled_pair :: DataStreamer where
  "shuffled_pair =
     (new_streamer [] None None None one_step True 1)
       \<lparr>features := [[[10]], [[11]]], labels := Some [''a'', ''b'']\<rparr>"

definition unlabelled :: DataStreamer where
  "unlabelled =
     new_streamer [[[7], [8]]] None (Some [[0, 1]]) (Some [[0, 1]]) one_step False 1"

definition five_samples :: DataStreamer where
  "five_samples =
     new_streamer [[[0], [1], [2], [3], [4]]] (Some [[''a'', ''b'', ''c'', ''d'', ''e'']])
       (Some [[0, 1, 2, 3, 4]]) (Some [[0, 1, 2, 3, 4]]) one_step False 2"

section \<open>Basic facts\<close>

lemmas run_defs = new_streamer_def initialize_def load_def shuffle_stage_def balance_stage_def
  read_optional_def py_index_def label_list_def FLOAT_ERROR_def one_step_def shuffle1_def
  shuffle2_def permute_def

lemma bindE_Inl [simp]: "bindE (Inl e) f = Inl e"
  by (simp add: bindE_def)

lemma bindE_Inr [simp]: "bindE (Inr v) f = f v"
  by (simp add: bindE_def)

lemma bindE_assoc: "bindE (bindE m f) g = bindE m (\<lambda>v. bindE (f v) g)"
  by (cases m) simp_all

lemma bindE_eq_Inr: "bindE m f = Inr r \<longleftrightarrow> (\<exists>v. m = Inr v \<and> f v = Inr r)"
  by (cases m) simp_all

lemma bindE_Inr_id: "bindE m Inr = m"
  by (cases m) simp_all

lemma py_index_mem: "py_index xs i = Inr v \<Longrightarrow> v \<in> set xs"
  by (auto simp: py_index_def split: if_splits)

lemma py_index_beyond: "int (length xs) \<le> i \<Longrightarrow> py_index xs i = Inl IndexError"
  by (simp add: py_index_def)

lemma py_index_inside:
  "0 \<le> i \<Longrightarrow> i < int (length xs) \<Longrightarrow> py_index xs i = Inr (xs ! nat i)"
  by (simp add: py_index_def)

section \<open>One window position\<close>

text \<open>
  What one offset does to the search position \<open>w\<close>, case by case. Inside the feature times
  the position is filled as the algorithm describes; at or beyond their end the read of
  line 108 raises before the comparison of line 109 is reached.
\<close>

lemma window_loop_hit:
  assumes "0 \<le> w" and "w < int (length ft)" and "w < int (length feats)"
    and "\<bar>y + d - ft ! nat w\<bar> \<le> FLOAT_ERROR"
  shows "window_loop sd feats ft y w acc (d # ds) =
           window_loop sd feats ft y (w + window_skip sd) (acc @ [feats ! nat w]) ds"
  using assms by (simp add: py_index_inside)

lemma window_loop_miss:
  assumes "0 \<le> w" and "w < int (length ft)" and "feats \<noteq> []"
    and "\<not> \<bar>y + d - ft ! nat w\<bar> \<le> FLOAT_ERROR"
  shows "window_loop sd feats ft y w acc (d # ds) =
           window_loop sd feats ft y w (acc @ [replicate (length (feats ! 0)) 0]) ds"
  using assms by (simp add: py_index_inside)

lemma window_loop_beyond:
  assumes "int (length ft) \<le> w"
  shows "window_loop sd feats ft y w acc (d # ds) = Inl IndexError"
  using assms by (simp add: py_index_beyond)

section \<open>The loops and their accumulators\<close>

lemma window_loop_acc:
  "window_loop sd feats ft y w acc ds =
     bindE (window_loop sd feats ft y w [] ds) (\<lambda>r. Inr (acc @ r))"
proof (induction ds arbitrary: w acc)
  case Nil
  show ?case by simp
next
  case (Cons d ds)
  show ?case
    apply (simp only: window_loop.simps)
    apply (cases "py_index ft w"; simp)
    apply (cases "py_index feats w"; cases "py_index feats 0"; simp)
    apply (auto simp: Cons.IH[of _ "acc @ _"] Cons.IH[of _ "[_]"] bindE_assoc)
    done
qed

lemma label_loop_by_index:
  "label_loop sd feats ft x acc ys =
     bindE (collect (map (\<lambda>i. window_loop sd feats ft (ys ! i)
                               (max (x + int i * step_size sd) 0) [] (intervals sd))
                     [0..<length ys]))
       (\<lambda>ws. Inr (acc @ ws))"
proof (induction ys arbitrary: x acc)
  case Nil
  show ?case by simp
next
  case (Cons y ys)
  have arith: "\<And>i. x + step_size sd + int i * step_size sd = x + (1 + int i) * step_size sd"
    by (simp add: algebra_simps)
  show ?case
    apply (simp only: label_loop.simps Cons.IH)
    apply (simp add: map_upt_Suc arith del: upt_Suc)
    apply (cases "window_loop sd feats ft y (max x 0) [] (intervals sd)"; simp)
    apply (simp add: bindE_assoc)
    done
qed

lemma label_loop_align:
  "label_loop sd feats ft (x_start sd) acc ys =
     bindE (align sd feats ft ys) (\<lambda>r. Inr (acc @ r))"
  unfolding align_def
  by (subst label_loop_by_index, subst label_loop_by_index) (simp add: bindE_assoc)

section \<open>Shapes\<close>

lemma window_loop_shape:
  assumes "window_loop sd feats ft y w acc ds = Inr r"
    and "\<forall>row\<in>set feats. length row = n"
    and "\<forall>v\<in>set acc. length v = n"
  shows "length r = length acc + length ds \<and> (\<forall>v\<in>set r. length v = n)"
  using assms
proof (induction ds arbitrary: w acc)
  case Nil
  then show ?case by simp
next
  case (Cons d ds)
  from Cons.prems(1) obtain x_time where xt: "py_index ft w = Inr x_time"
    by (auto simp: bindE_eq_Inr)
  show ?case
  proof (cases "w < int (length ft) \<and> \<bar>y + d - x_time\<bar> \<le> FLOAT_ERROR")
    case True
    with Cons.prems(1) xt obtain row where row: "py_index feats w = Inr row"
      and run: "window_loop sd feats ft y (w + window_skip sd) (acc @ [row]) ds = Inr r"
      by (auto simp: bindE_eq_Inr)
    from row Cons.prems(2) have "length row = n"
      by (auto dest: py_index_mem)
    with Cons.prems(3) have "\<forall>v\<in>set (acc @ [row]). length v = n"
      by simp
    from Cons.IH [OF run Cons.prems(2) this] show ?thesis
      by simp
  next
    case False
    with Cons.prems(1) xt obtain row0 where row0: "py_index feats 0 = Inr row0"
      and run: "window_loop sd feats ft y w (acc @ [replicate (length row0) 0]) ds = Inr r"
      by (auto simp: bindE_eq_Inr)
    from row0 Cons.prems(2) have "length row0 = n"
      by (auto dest: py_index_mem)
    with Cons.prems(3) have "\<forall>v\<in>set (acc @ [replicate (length row0) 0]). length v = n"
      by simp
    from Cons.IH [OF run Cons.prems(2) this] show ?thesis
      by simp
  qed
qed

lemma label_loop_shape:
  assumes "label_loop sd feats ft x acc ys = Inr r"
    and "\<forall>row\<in>set feats. length row = n"
    and "\<forall>win\<in>set acc. length win = length (intervals sd) \<and> (\<forall>v\<in>set win. length v = n)"
  shows "length r = length acc + length ys
       \<and> (\<forall>win\<in>set r. length win = length (intervals sd) \<and> (\<forall>v\<in>set win. length v = n))"
  using assms
proof (induction ys arbitrary: x acc)
  case Nil
  then show ?case by simp
next
  case (Cons y ys)
  from Cons.prems(1) obtain samples
    where win: "window_loop sd feats ft y (max x 0) [] (intervals sd) = Inr samples"
      and run: "label_loop sd feats ft (x + step_size sd) (acc @ [samples]) ys = Inr r"
    by (auto simp: bindE_eq_Inr)
  from window_loop_shape [OF win Cons.prems(2)]
  have "length samples = length (intervals sd) \<and> (\<forall>v\<in>set samples. length v = n)"
    by simp
  with Cons.prems(3)
  have "\<forall>win\<in>set (acc @ [samples]).
          length win = length (intervals sd) \<and> (\<forall>v\<in>set win. length v = n)"
    by simp
  from Cons.IH [OF run Cons.prems(2) this] show ?case
    by simp
qed

section \<open>The file loop\<close>

lemma read_optional_falsy: "\<not> truthy files \<Longrightarrow> read_optional files k old = Inr old"
  by (cases files) (auto simp: read_optional_def)

lemma read_optional_truthy:
  "truthy files \<Longrightarrow> read_optional files k old = read_optional files k old'"
  by (cases files) (auto simp: read_optional_def)

lemma group_times_read:
  assumes "read_optional files k old = Inr ts" and "\<not> truthy files \<longrightarrow> old = []"
  shows "group_times files k = ts"
proof (cases "truthy files")
  case True
  from read_optional_truthy [OF True, of k "[]" old] assms(1) show ?thesis
    by (simp add: group_times_def)
next
  case False
  with assms read_optional_falsy [OF False, of k] show ?thesis
    by (simp add: group_times_def)
qed

lemma file_loop_frame:
  "file_loop s k ft lt files = Inr s' \<Longrightarrow>
     x_files s' = x_files s \<and> y_files s' = y_files s \<and> x_time_files s' = x_time_files s
     \<and> y_time_files s' = y_time_files s \<and> sample_deltas s' = sample_deltas s
     \<and> do_shuffle s' = do_shuffle s \<and> class_balancer s' = class_balancer s
     \<and> batch_size s' = batch_size s \<and> index s' = index s"
proof (induction files arbitrary: s k ft lt)
  case Nil
  then show ?case by simp
next
  case (Cons feats rest)
  from Cons.prems obtain s2 k2 ft2 lt2
    where run: "file_loop s2 k2 ft2 lt2 rest = Inr s'"
      and same: "x_files s2 = x_files s" "y_files s2 = y_files s"
        "x_time_files s2 = x_time_files s" "y_time_files s2 = y_time_files s"
        "sample_deltas s2 = sample_deltas s" "do_shuffle s2 = do_shuffle s"
        "class_balancer s2 = class_balancer s" "batch_size s2 = batch_size s"
        "index s2 = index s"
    by (fastforce simp: bindE_eq_Inr)
  from Cons.IH [OF run] same show ?case
    by simp
qed

lemma file_loop_features:
  assumes "file_loop s k ft lt files = Inr s'"
    and "\<not> truthy (x_time_files s) \<longrightarrow> ft = []"
    and "\<not> truthy (y_time_files s) \<longrightarrow> lt = []"
  shows "bindE (collect (map (\<lambda>j. align (sample_deltas s) (files ! j)
                                (group_times (x_time_files s) (k + j))
                                (group_times (y_time_files s) (k + j)))
                         [0..<length files]))
           (\<lambda>gs. Inr (features s @ concat gs)) = Inr (features s')"
  using assms
proof (induction files arbitrary: s k ft lt)
  case Nil
  then show ?case by simp
next
  case (Cons feats rest)
  let ?sd = "sample_deltas s"
  from Cons.prems(1) obtain row0 ys ft' lt' fs
    where r0: "py_index feats 0 = Inr row0"
      and rl: "read_optional (y_files s) k [] = Inr ys"
      and rx: "read_optional (x_time_files s) k ft = Inr ft'"
      and ry: "read_optional (y_time_files s) k lt = Inr lt'"
      and lab: "label_loop ?sd feats ft' (x_start ?sd) (features s) lt' = Inr fs"
      and run: "file_loop
         (s\<lparr>features := fs,
            labels := Some (label_list s @ ys),
            n_features := Some (length row0),
            n_samples := (if truthy (y_time_files s) then n_samples s + length lt'
                          else n_samples s)\<rparr>)
         (Suc k) ft' lt' rest = Inr s'"
    unfolding file_loop.simps bindE_eq_Inr by (elim exE conjE) (rule that)
  have gx: "group_times (x_time_files s) k = ft'"
    using rx Cons.prems(2) by (rule group_times_read)
  have gy: "group_times (y_time_files s) k = lt'"
    using ry Cons.prems(3) by (rule group_times_read)
  from lab obtain g where g: "align ?sd feats ft' lt' = Inr g" and fs: "fs = features s @ g"
    by (auto simp: label_loop_align bindE_eq_Inr)
  have keep_x: "\<not> truthy (x_time_files s) \<longrightarrow> ft' = []"
    using rx Cons.prems(2) by (auto simp: read_optional_falsy)
  have keep_y: "\<not> truthy (y_time_files s) \<longrightarrow> lt' = []"
    using ry Cons.prems(3) by (auto simp: read_optional_falsy)
  from Cons.IH [OF run] keep_x keep_y
  have ih: "bindE (collect (map (\<lambda>j. align ?sd (rest ! j)
                                (group_times (x_time_files s) (Suc k + j))
                                (group_times (y_time_files s) (Suc k + j)))
                         [0..<length rest]))
           (\<lambda>gs. Inr (fs @ concat gs)) = Inr (features s')"
    by simp
  show ?case
    using ih
    by (simp add: map_upt_Suc gx gy g fs bindE_assoc del: upt_Suc)
qed

lemma file_loop_n_features:
  "file_loop s k ft lt files = Inr s' \<Longrightarrow> files \<noteq> [] \<Longrightarrow>
     \<exists>row0. py_index (last files) 0 = Inr row0 \<and> n_features s' = Some (length row0)"
proof (induction files arbitrary: s k ft lt)
  case Nil
  then show ?case by simp
next
  case (Cons feats rest)
  from Cons.prems(1) obtain row0 s2 k2 ft2 lt2
    where row0: "py_index feats 0 = Inr row0"
      and run: "file_loop s2 k2 ft2 lt2 rest = Inr s'"
      and nf: "n_features s2 = Some (length row0)"
    by (fastforce simp: bindE_eq_Inr)
  show ?case
  proof (cases rest)
    case Nil
    with run row0 nf show ?thesis by simp
  next
    case (Cons a list)
    with Cons.IH [OF run] show ?thesis by simp
  qed
qed

lemma file_loop_no_labels:
  "file_loop s k ft lt files = Inr s' \<Longrightarrow> \<not> truthy (y_files s) \<Longrightarrow> labels s = Some ls \<Longrightarrow>
     labels s' = Some ls"
proof (induction files arbitrary: s k ft lt)
  case Nil
  then show ?case by simp
next
  case (Cons feats rest)
  from Cons.prems obtain s2 k2 ft2 lt2
    where run: "file_loop s2 k2 ft2 lt2 rest = Inr s'"
      and same: "y_files s2 = y_files s" "labels s2 = Some ls"
    by (fastforce simp: bindE_eq_Inr read_optional_falsy label_list_def)
  from Cons.IH [OF run] same Cons.prems(2) show ?case
    by simp
qed

section \<open>Window construction\<close>

text \<open>
  Claim C1. Every window position is either the feature row at the search position (the
  position is a valid index and its time is within \<open>1e-8\<close> of the target; the search then
  advances by the skip), or else a zero vector, the search staying where it is.

  The code does this only while the search position lies inside the feature times
  (\<open>window_loop_hit\<close>, \<open>window_loop_miss\<close>). A position at or past their end is not
  zero-filled: the run below has two feature rows and three labels, the base of the third
  label is index \<open>2\<close>, and \<^verbatim>\<open>initialize\<close> ends in IndexError instead of giving that
  label the window \<open>[[0]]\<close>.
\<close>

theorem label_past_end_raises: "initialize [] labels_past_end = Inl IndexError"
  by (simp add: run_defs labels_past_end_def)

text \<open>
  Claim C2. A search position beyond the feature times counts as a non-match: the rest of
  the window is zero-filled and \<^verbatim>\<open>initialize\<close> raises nothing.

  On the code the claim fails. In the run below the first offset matches the last feature
  row and moves the search to index \<open>3\<close> of three feature times; the second offset then
  reads \<^verbatim>\<open>feature_times[3]\<close> on line 108, ahead of the length test of line 109, and
  \<^verbatim>\<open>initialize\<close> ends in IndexError where the claim has the window \<open>[[2], [0]]\<close>.
\<close>

theorem window_past_end_raises: "initialize [] window_past_end = Inl IndexError"
  by (simp add: run_defs window_past_end_def)

text \<open>
  Claim C3, as stated: on the example of the specification with start index \<open>0\<close> the
  window is \<open>[[1], [2], [3]]\<close>. It is not: the search starts at index \<open>0\<close>, whose time
  \<open>0\<close> is none of the targets \<open>1\<close>, \<open>2\<close>, \<open>3\<close>, and a miss does not move the search.
\<close>

theorem spec_example_counterexample:
  "map_sum id features (initialize [] (spec_example 0)) \<noteq> Inr [[[1], [2], [3]]]"
  by (simp add: run_defs spec_example_def)

text \<open>
  Claim C3, amended: on that example the window is \<open>[[0], [0], [0]]\<close>; with start index
  \<open>1\<close> and everything else unchanged it is \<open>[[1], [2], [3]]\<close>.
\<close>

theorem spec_example_windows:
  "map_sum id features (initialize [] (spec_example 0)) = Inr [[[0], [0], [0]]]
   \<and> map_sum id features (initialize [] (spec_example 1)) = Inr [[[1], [2], [3]]]"
  by (simp add: run_defs spec_example_def)

text \<open>
  Claim C4. Within a file group the window of label \<open>i\<close> is built from the base position
  \<open>x_start + i * step_size\<close>, whatever matched or missed before: the alignment of a group
  is the sequence of the windows built from these bases, up to the first exception. Across
  groups the base starts again at \<open>x_start\<close>: the features that a successful load leaves
  are the concatenation of the alignments of the groups, each taken on its own.
\<close>

theorem base_position_per_label_and_group:
  "align sd feats feature_times label_times =
     collect (map (\<lambda>i. window_loop sd feats feature_times (label_times ! i)
                          (max (x_start sd + int i * step_size sd) 0) [] (intervals sd))
                [0..<length label_times])
   \<and> (load s = Inr s' \<longrightarrow>
        bindE (collect (map (\<lambda>k. align (sample_deltas s) (x_files s ! k)
                                   (group_times (x_time_files s) k)
                                   (group_times (y_time_files s) k))
                          [0..<length (x_files s)]))
          (\<lambda>groups. Inr (concat groups)) = Inr (features s'))"
proof (intro conjI impI)
  show "align sd feats feature_times label_times =
     collect (map (\<lambda>i. window_loop sd feats feature_times (label_times ! i)
                          (max (x_start sd + int i * step_size sd) 0) [] (intervals sd))
                [0..<length label_times])"
    unfolding align_def by (subst label_loop_by_index) (simp add: bindE_Inr_id)
next
  assume "load s = Inr s'"
  then have run: "file_loop (s\<lparr>features := [], labels := Some []\<rparr>) 0 [] [] (x_files s) = Inr s'"
    by (simp add: load_def)
  from file_loop_features [OF run] show
    "bindE (collect (map (\<lambda>k. align (sample_deltas s) (x_files s ! k)
                                   (group_times (x_time_files s) k)
                                   (group_times (y_time_files s) k))
                          [0..<length (x_files s)]))
          (\<lambda>groups. Inr (concat groups)) = Inr (features s')"
    by simp
qed

text \<open>
  Two groups of three rows with labels at the times \<open>0\<close> and \<open>1\<close>: the second group matches
  its rows \<open>0\<close> and \<open>1\<close>, which it would miss from a base carried over from the first.
\<close>

theorem base_position_witness:
  "load two_groups =
     Inr (two_groups\<lparr>features := [[[10]], [[11]], [[20]], [[21]]],
            labels := Some [''a'', ''b'', ''c'', ''d''], n_features := Some 1, n_samples := 4\<rparr>)
   \<and> bindE (collect (map (\<lambda>k. align (sample_deltas two_groups) (x_files two_groups ! k)
                                   (group_times (x_time_files two_groups) k)
                                   (group_times (y_time_files two_groups) k))
                          [0..<length (x_files two_groups)]))
          (\<lambda>groups. Inr (concat groups)) = Inr [[[10]], [[11]], [[20]], [[21]]]"
proof -
  have run: "load two_groups =
     Inr (two_groups\<lparr>features := [[[10]], [[11]], [[20]], [[21]]],
            labels := Some [''a'', ''b'', ''c'', ''d''], n_features := Some 1, n_samples := 4\<rparr>)"
    by (simp add: run_defs two_groups_def)
  from base_position_per_label_and_group [THEN conjunct2, rule_format, OF run] run
  show ?thesis by simp
qed

text \<open>
  The shape of an alignment that returns: on a feature table whose rows all have the length
  of its first row (the \<open>n_features\<close> of line 94) it holds one window per label, every
  window has as many positions as the spec has offsets, and every position has
  \<open>n_features\<close> entries, whichever positions matched.
\<close>

lemma align_shape:
  assumes "align sd feats feature_times label_times = Inr windows"
    and "py_index feats 0 = Inr row0"
    and "\<forall>row\<in>set feats. length row = length row0"
  shows "length windows = length label_times
       \<and> (\<forall>win\<in>set windows. length win = window_size sd
            \<and> (\<forall>v\<in>set win. length v = length row0))"
  using label_loop_shape [of sd feats feature_times "x_start sd" "[]" label_times windows
      "length row0"] assms(1,3)
  by (simp add: align_def window_size_def)

text \<open>Two labels over six rows; each window has a zero-filled and two matched positions.\<close>

lemma align_shape_example:
  "align hit_and_miss [[0], [1], [2], [3], [4], [5]] [0, 1, 2, 3, 4, 5] [3, 4]
     = Inr [[[0], [3], [4]], [[0], [4], [5]]]
   \<and> py_index [[0], [1], [2], [3], [4], [5 :: real]] 0 = Inr [0]
   \<and> list_all (\<lambda>row. length row = length [0 :: real]) [[0], [1], [2], [3], [4], [5 :: real]]
   \<and> length [[[0], [3], [4]], [[0], [4], [5 :: real]]] = length [3, 4 :: real]
   \<and> list_all (\<lambda>win. length win = window_size hit_and_miss
                    \<and> list_all (\<lambda>v. length v = length [0 :: real]) win)
         [[[0], [3], [4]], [[0], [4], [5 :: real]]]"
proof -
  have run: "align hit_and_miss [[0], [1], [2], [3], [4], [5]] [0, 1, 2, 3, 4, 5] [3, 4]
     = Inr [[[0], [3], [4]], [[0], [4], [5]]]"
    by (simp add: align_def hit_and_miss_def py_index_def FLOAT_ERROR_def)
  have first: "py_index [[0], [1], [2], [3], [4], [5 :: real]] 0 = Inr [0]"
    by (simp add: py_index_def)
  have rect: "\<forall>row\<in>set [[0], [1], [2], [3], [4], [5 :: real]]. length row = length [0 :: real]"
    by simp
  from align_shape [OF run first rect] run first show ?thesis
    by (simp add: list_all_iff)
qed

text \<open>
  Claim C5. For every feature table, feature times, label times and spec the alignment has
  the shape \<open>(len(label_times), W, n_features)\<close>, whichever positions matched or were
  zero-filled.

  On the code the claim fails where a search position passes the end of the feature times.
  Below, three rows of one feature at the times \<open>0, 1, 2\<close> are aligned with the labels
  at \<open>1\<close> and \<open>2\<close>. The first window matches rows \<open>1\<close> and \<open>2\<close>. The second window
  matches row \<open>2\<close>, which moves the search to index \<open>3\<close>; its second offset is to be
  zero-filled, for an output of shape \<open>(2, 2, 1)\<close>, but line 108 reads
  \<^verbatim>\<open>feature_times[3]\<close> and the alignment ends in IndexError with no output. An
  alignment that does return has the shape of the claim (\<open>align_shape\<close>).
\<close>

theorem align_past_end_no_output:
  "align two_offsets [[7], [8], [9]] [0, 1, 2] [1, 2] = Inl IndexError"
  by (simp add: align_def two_offsets_def py_index_def FLOAT_ERROR_def)

section \<open>Shuffling, balancing and batches\<close>

lemma mset_permute:
  assumes "mset p = mset [0..<length xs]"
  shows "mset (permute p xs) = mset xs"
proof -
  have "mset (permute p xs) = image_mset (\<lambda>i. xs ! i) (mset p)"
    by (simp add: permute_def)
  also have "\<dots> = mset (map (\<lambda>i. xs ! i) [0..<length xs])"
    by (simp add: assms)
  also have "\<dots> = mset xs"
    by (simp add: map_nth)
  finally show ?thesis .
qed

lemma permute_zip:
  assumes "mset p = mset [0..<length xs]" and "length ys = length xs"
  shows "zip (permute p xs) (permute p ys) = permute p (zip xs ys)"
proof -
  have gen: "\<forall>i\<in>set q. i < length xs \<Longrightarrow>
      zip (map (\<lambda>i. xs ! i) q) (map (\<lambda>i. ys ! i) q) = map (\<lambda>i. zip xs ys ! i) q" for q
    using assms(2) by (induction q) simp_all
  from assms(1) have "set p = {0..<length xs}"
    by (metis mset_eq_setD set_upt)
  then show ?thesis
    unfolding permute_def by (intro gen) simp
qed

lemma py_slice_forward:
  assumes "0 \<le> a" and "0 \<le> b"
  shows "py_slice xs a (a + b) = take (nat b) (drop (nat a) xs)"
proof -
  let ?n = "length xs"
  from assms have lo: "slice_bound ?n a = min (nat a) ?n"
    by (auto simp: slice_bound_def)
  from assms have hi: "slice_bound ?n (a + b) = min (nat a + nat b) ?n"
    by (auto simp: slice_bound_def nat_add_distrib)
  show ?thesis
  proof (cases "nat a + nat b \<le> ?n")
    case True
    then show ?thesis
      by (simp add: py_slice_def lo hi)
  next
    case False
    then have "length (drop (min (nat a) ?n) xs) \<le> ?n - min (nat a) ?n"
      and "length (drop (nat a) xs) \<le> nat b"
      by simp_all
    then show ?thesis
      using False by (simp add: py_slice_def lo hi min_def)
  qed
qed

lemma py_slice_Nil: "py_slice [] a b = []"
  by (simp add: py_slice_def)

lemma balance_stage_no_labels: "label_list s = [] \<Longrightarrow> balance_stage s = s"
  by (simp add: balance_stage_def split: option.splits)

lemma balance_stage_frame:
  "n_features (balance_stage s) = n_features s \<and> x_files (balance_stage s) = x_files s"
  by (simp add: balance_stage_def split: option.splits)

lemma shuffle_stage_frame:
  "shuffle_stage p s = Inr s' \<Longrightarrow> n_features s' = n_features s \<and> x_files s' = x_files s"
  by (auto simp: shuffle_stage_def bindE_eq_Inr split: if_splits)

lemma load_no_labels: "load s = Inr s1 \<Longrightarrow> \<not> truthy (y_files s) \<Longrightarrow> labels s1 = Some []"
  unfolding load_def by (erule file_loop_no_labels) simp_all

lemma load_frame:
  "load s = Inr s1 \<Longrightarrow> x_files s1 = x_files s \<and> do_shuffle s1 = do_shuffle s"
  unfolding load_def by (drule file_loop_frame) simp

lemma advance_frame:
  "features (advance k s) = features s \<and> labels (advance k s) = labels s
   \<and> batch_size (advance k s) = batch_size s
   \<and> index (advance k s) = index s + int k * batch_size s"
  by (induction k arbitrary: s) (simp_all add: next_batch_def algebra_simps)

lemma initialize_index: "initialize p s0 = Inr s \<Longrightarrow> index s = 0"
  by (auto simp: initialize_def bindE_eq_Inr)

lemma batches_of_five:
  assumes "length (features s) = 5" and "index s = 0" and "batch_size s = 2"
  shows "map (\<lambda>b. length (fst b)) (batches 4 s) = [2, 2, 1, 0]"
proof -
  have unroll: "batches 4 s =
    [fst (next_batch (advance 0 s)), fst (next_batch (advance 1 s)),
     fst (next_batch (advance 2 s)), fst (next_batch (advance 3 s))]"
    by (simp add: numeral_eq_Suc)
  have len: "length (fst (fst (next_batch (advance k s)))) = min 2 (5 - 2 * k)" for k
  proof -
    have "fst (fst (next_batch (advance k s))) = py_slice (features s) (int k * 2) (int k * 2 + 2)"
      using advance_frame [of k s] assms by (simp add: next_batch_def)
    also have "\<dots> = take 2 (drop (2 * k) (features s))"
      by (subst py_slice_forward) (simp_all add: nat_mult_distrib mult.commute)
    finally show ?thesis
      using assms(1) by simp
  qed
  from len [of 0] len [of 1] len [of 2] len [of 3] show ?thesis
    unfolding unroll by simp
qed

section \<open>Batches\<close>

text \<open>
  Claim C6. On an initialized streamer the cursor is \<open>0\<close>. After any number \<open>k\<close> of calls,
  \<^verbatim>\<open>next\<close> returns the slice of the features from the cursor \<open>k * batch_size\<close> to
  \<open>k * batch_size + batch_size\<close>, the same slice of the labels when there are labels, and
  leaves the cursor at \<open>k * batch_size + batch_size\<close>, however many samples remain. For a
  batch size that is not negative the slice is the next \<open>batch_size\<close> samples, or the
  fewer that are left. Five samples in batches of two come out in sizes \<open>2, 2, 1, 0\<close>.
\<close>

theorem next_batch_slices:
  assumes "initialize p s0 = Inr s"
  shows "index s = 0
    \<and> fst (next_batch (advance k s)) =
        (py_slice (features s) (int k * batch_size s) (int k * batch_size s + batch_size s),
         map_option (\<lambda>ls. py_slice ls (int k * batch_size s)
                             (int k * batch_size s + batch_size s)) (labels s))
    \<and> index (snd (next_batch (advance k s))) = int k * batch_size s + batch_size s
    \<and> (0 \<le> batch_size s \<longrightarrow>
         fst (fst (next_batch (advance k s))) =
           take (nat (batch_size s)) (drop (k * nat (batch_size s)) (features s)))
    \<and> (length (features s) = 5 \<and> batch_size s = 2 \<longrightarrow>
         map (\<lambda>b. length (fst b)) (batches 4 s) = [2, 2, 1, 0])"
proof -
  have zero: "index s = 0"
    using assms by (rule initialize_index)
  have frame: "features (advance k s) = features s" "labels (advance k s) = labels s"
    "batch_size (advance k s) = batch_size s" "index (advance k s) = int k * batch_size s"
    using advance_frame [of k s] zero by simp_all
  have batch: "fst (next_batch (advance k s)) =
        (py_slice (features s) (int k * batch_size s) (int k * batch_size s + batch_size s),
         map_option (\<lambda>ls. py_slice ls (int k * batch_size s)
                             (int k * batch_size s + batch_size s)) (labels s))"
    by (simp add: next_batch_def frame split: option.splits)
  have cursor: "index (snd (next_batch (advance k s))) = int k * batch_size s + batch_size s"
    by (simp add: next_batch_def frame)
  have forward: "fst (fst (next_batch (advance k s))) =
           take (nat (batch_size s)) (drop (k * nat (batch_size s)) (features s))"
    if "0 \<le> batch_size s"
    using that by (simp add: batch py_slice_forward nat_mult_distrib)
  have five: "map (\<lambda>b. length (fst b)) (batches 4 s) = [2, 2, 1, 0]"
    if "length (features s) = 5 \<and> batch_size s = 2"
    using that zero by (simp add: batches_of_five)
  from zero batch cursor forward five show ?thesis
    by blast
qed

text \<open>Five labelled samples in batches of two: the third call returns the last sample.\<close>

theorem next_batch_slices_witness:
  "initialize [] five_samples =
     Inr (five_samples\<lparr>features := [[[0]], [[1]], [[2]], [[3]], [[4]]],
            labels := Some [''a'', ''b'', ''c'', ''d'', ''e''],
            n_features := Some 1, n_samples := 5\<rparr>)
   \<and> fst (next_batch (advance 2
          (five_samples\<lparr>features := [[[0]], [[1]], [[2]], [[3]], [[4]]],
            labels := Some [''a'', ''b'', ''c'', ''d'', ''e''],
            n_features := Some 1, n_samples := 5\<rparr>))) = ([[[4]]], Some [''e''])
   \<and> index (snd (next_batch (advance 2
          (five_samples\<lparr>features := [[[0]], [[1]], [[2]], [[3]], [[4]]],
            labels := Some [''a'', ''b'', ''c'', ''d'', ''e''],
            n_features := Some 1, n_samples := 5\<rparr>)))) = 6
   \<and> map (\<lambda>b. length (fst b)) (batches 4
          (five_samples\<lparr>features := [[[0]], [[1]], [[2]], [[3]], [[4]]],
            labels := Some [''a'', ''b'', ''c'', ''d'', ''e''],
            n_features := Some 1, n_samples := 5\<rparr>)) = [2, 2, 1, 0]"
proof -
  have run: "initialize [] five_samples =
     Inr (five_samples\<lparr>features := [[[0]], [[1]], [[2]], [[3]], [[4]]],
            labels := Some [''a'', ''b'', ''c'', ''d'', ''e''],
            n_features := Some 1, n_samples := 5\<rparr>)"
    by (simp add: run_defs five_samples_def)
  from next_batch_slices [OF run, of 2] run show ?thesis
    by (simp add: five_samples_def new_streamer_def py_slice_def slice_bound_def)
qed

text \<open>
  Claim C10. Without label files (the list of label files is \<^verbatim>\<open>None\<close> or empty)
  \<^verbatim>\<open>initialize\<close> leaves \<open>labels\<close> as the empty list, not \<^verbatim>\<open>None\<close>, and \<^verbatim>\<open>next\<close>
  returns the empty label slice at every cursor position \<open>c\<close>.
\<close>

theorem no_label_files_empty_labels:
  assumes "initialize p s = Inr s'" and "\<not> truthy (y_files s)"
  shows "labels s' = Some [] \<and> snd (fst (next_batch (s'\<lparr>index := c\<rparr>))) = Some []"
proof -
  from assms(1) obtain s1 s2 where load: "load s = Inr s1"
    and shuffle: "shuffle_stage p s1 = Inr s2"
    and final: "s' = (balance_stage s2)\<lparr>index := 0\<rparr>"
    by (auto simp: initialize_def bindE_eq_Inr)
  from load assms(2) have l1: "labels s1 = Some []"
    by (rule load_no_labels)
  then have "label_list s1 = []"
    by (simp add: label_list_def)
  with shuffle l1 have l2: "labels s2 = Some []"
    by (auto simp: shuffle_stage_def split: if_splits)
  then have "balance_stage s2 = s2"
    by (simp add: balance_stage_no_labels label_list_def)
  with final l2 have "labels s' = Some []"
    by simp
  then show ?thesis
    by (simp add: next_batch_def py_slice_Nil)
qed

text \<open>Two unlabelled samples, read at cursor \<open>1\<close>.\<close>

theorem no_label_files_witness:
  "initialize [] unlabelled =
     Inr (unlabelled\<lparr>features := [[[7]], [[8]]], labels := Some [],
            n_features := Some 1, n_samples := 2\<rparr>)
   \<and> \<not> truthy (y_files unlabelled)
   \<and> next_batch (unlabelled\<lparr>features := [[[7]], [[8]]], labels := Some [],
            n_features := Some 1, n_samples := 2, index := 1\<rparr>) =
       (([[[8]]], Some []),
        unlabelled\<lparr>features := [[[7]], [[8]]], labels := Some [],
            n_features := Some 1, n_samples := 2, index := 2\<rparr>)"
proof -
  have run: "initialize [] unlabelled =
     Inr (unlabelled\<lparr>features := [[[7]], [[8]]], labels := Some [],
            n_features := Some 1, n_samples := 2\<rparr>)"
    by (simp add: run_defs unlabelled_def)
  have none: "\<not> truthy (y_files unlabelled)"
    by (simp add: unlabelled_def new_streamer_def)
  from no_label_files_empty_labels [OF run none, of 1] run none show ?thesis
    by (simp add: next_batch_def py_slice_def slice_bound_def unlabelled_def new_streamer_def)
qed

section \<open>The feature count\<close>

text \<open>
  Claim C7, as stated: \<open>n_features\<close> is fixed by the first loaded file and later files do
  not change it. Line 94 assigns it for every file: loading a file of width \<open>2\<close> after one
  of width \<open>1\<close> leaves another value than loading the first file alone.
\<close>

theorem n_features_counterexample:
  "map_sum id n_features (initialize [] (widths_streamer [[[5]], [[1, 2]]]))
     \<noteq> map_sum id n_features (initialize [] (widths_streamer [[[5]]]))"
  by (simp add: run_defs widths_streamer_def)

text \<open>
  Claim C7, amended: every loaded file assigns \<open>n_features\<close> the length of its first row,
  so after \<^verbatim>\<open>initialize\<close> over a non-empty list of feature files it is the length of the
  first row of the last file.
\<close>

theorem n_features_of_last_file:
  assumes "initialize p s = Inr s'" and "x_files s \<noteq> []"
  shows "py_index (last (x_files s)) 0 = Inr (last (x_files s) ! 0)
       \<and> n_features s' = Some (length (last (x_files s) ! 0))"
proof -
  from assms(1) obtain s1 s2 where load: "load s = Inr s1"
    and shuffle: "shuffle_stage p s1 = Inr s2"
    and final: "s' = (balance_stage s2)\<lparr>index := 0\<rparr>"
    by (auto simp: initialize_def bindE_eq_Inr)
  from load have "file_loop (s\<lparr>features := [], labels := Some []\<rparr>) 0 [] [] (x_files s) = Inr s1"
    by (simp add: load_def)
  from file_loop_n_features [OF this assms(2)] obtain row0
    where row0: "py_index (last (x_files s)) 0 = Inr row0"
      and nf: "n_features s1 = Some (length row0)"
    by blast
  from row0 have "row0 = last (x_files s) ! 0"
    by (auto simp: py_index_def split: if_splits)
  with row0 nf shuffle_stage_frame [OF shuffle] balance_stage_frame [of s2] final
  show ?thesis by simp
qed

text \<open>The two files of the counterexample: the second one has rows of width \<open>2\<close>.\<close>

theorem n_features_of_last_file_witness:
  "initialize [] (widths_streamer [[[5]], [[1, 2]]]) =
     Inr ((widths_streamer [[[5]], [[1, 2]]])\<lparr>features := [[[5]]], labels := Some [],
            n_features := Some 2, n_samples := 1\<rparr>)
   \<and> x_files (widths_streamer [[[5]], [[1, 2]]]) \<noteq> []
   \<and> py_index (last (x_files (widths_streamer [[[5]], [[1, 2]]]))) 0 = Inr [1, 2]
   \<and> n_features ((widths_streamer [[[5]], [[1, 2]]])\<lparr>features := [[[5]]], labels := Some [],
            n_features := Some 2, n_samples := 1\<rparr>) = Some (length [1, 2 :: real])"
proof -
  have run: "initialize [] (widths_streamer [[[5]], [[1, 2]]]) =
     Inr ((widths_streamer [[[5]], [[1, 2]]])\<lparr>features := [[[5]]], labels := Some [],
            n_features := Some 2, n_samples := 1\<rparr>)"
    by (simp add: run_defs widths_streamer_def)
  have files: "x_files (widths_streamer [[[5]], [[1, 2]]]) \<noteq> []"
    by (simp add: widths_streamer_def new_streamer_def)
  from n_features_of_last_file [OF run files] run files show ?thesis
    by (simp add: widths_streamer_def new_streamer_def)
qed

section \<open>Shuffling\<close>

text \<open>
  Claim C8. When shuffling is on and \<open>p\<close> is the drawn rearrangement of the sample
  positions: with labels, one for each feature window, features and labels are both
  rearranged by \<open>p\<close>, and the pairs of window and label are the same multiset as before;
  without labels the features alone are rearranged by \<open>p\<close> (the same multiset of windows).
\<close>

theorem shuffle_keeps_pairs:
  assumes "do_shuffle s" and "mset p = mset [0..<length (features s)]"
  shows "(label_list s \<noteq> [] \<and> length (label_list s) = length (features s) \<longrightarrow>
            shuffle_stage p s =
              Inr (s\<lparr>features := permute p (features s),
                     labels := Some (permute p (label_list s))\<rparr>)
            \<and> mset (zip (permute p (features s)) (permute p (label_list s)))
                = mset (zip (features s) (label_list s)))
       \<and> (label_list s = [] \<longrightarrow>
            shuffle_stage p s = Inr (s\<lparr>features := permute p (features s)\<rparr>)
            \<and> mset (permute p (features s)) = mset (features s))"
proof (intro conjI impI)
  assume full: "label_list s \<noteq> [] \<and> length (label_list s) = length (features s)"
  then have "length (label_list s) \<noteq> 0" and "length (features s) = length (label_list s)"
    by auto
  with assms(1) show "shuffle_stage p s =
      Inr (s\<lparr>features := permute p (features s), labels := Some (permute p (label_list s))\<rparr>)"
    unfolding shuffle_stage_def shuffle2_def by simp
  from full assms(2) have "zip (permute p (features s)) (permute p (label_list s))
      = permute p (zip (features s) (label_list s))"
    by (simp add: permute_zip)
  moreover from full assms(2)
  have "mset (permute p (zip (features s) (label_list s))) = mset (zip (features s) (label_list s))"
    by (intro mset_permute) simp
  ultimately show "mset (zip (permute p (features s)) (permute p (label_list s)))
      = mset (zip (features s) (label_list s))"
    by simp
next
  assume "label_list s = []"
  with assms(1) show "shuffle_stage p s = Inr (s\<lparr>features := permute p (features s)\<rparr>)"
    by (simp add: shuffle_stage_def shuffle1_def)
next
  from assms(2) show "mset (permute p (features s)) = mset (features s)"
    by (rule mset_permute)
qed

text \<open>Two samples swapped, with their labels and without labels.\<close>

theorem shuffle_keeps_pairs_witness:
  "do_shuffle shuffled_pair
   \<and> mset [1, 0] = mset [0..<length (features shuffled_pair)]
   \<and> shuffle_stage [1, 0] shuffled_pair =
       Inr (shuffled_pair\<lparr>features := [[[11]], [[10]]], labels := Some [''b'', ''a'']\<rparr>)
   \<and> mset (zip [[[11]], [[10 :: real]]] [''b'', ''a''])
       = mset (zip [[[10]], [[11]]] [''a'', ''b''])
   \<and> shuffle_stage [1, 0] (shuffled_pair\<lparr>labels := Some []\<rparr>) =
       Inr (shuffled_pair\<lparr>features := [[[11]], [[10]]], labels := Some []\<rparr>)"
proof -
  have flag: "do_shuffle shuffled_pair" "do_shuffle (shuffled_pair\<lparr>labels := Some []\<rparr>)"
    by (simp_all add: shuffled_pair_def new_streamer_def)
  have perm: "mset [1, 0] = mset [0..<length (features shuffled_pair)]"
    "mset [1, 0] = mset [0..<length (features (shuffled_pair\<lparr>labels := Some []\<rparr>))]"
    by (simp_all add: shuffled_pair_def new_streamer_def numeral_2_eq_2)
  from shuffle_keeps_pairs [OF flag(1) perm(1)]
    shuffle_keeps_pairs [OF flag(2) perm(2)] flag(1) perm(1)
  show ?thesis
    by (simp add: shuffled_pair_def new_streamer_def label_list_def permute_def)
qed

text \<open>
  Claim C9, as stated: when shuffling is requested and the number of labels differs from the
  number of feature windows, \<^verbatim>\<open>initialize\<close> fails with ConfigurationError. With a label
  file that has no rows there are no labels for one feature window, and \<^verbatim>\<open>initialize\<close>
  returns: line 120 sends an empty label array to the shuffle of the features alone.
\<close>

theorem shuffle_mismatch_counterexample:
  "do_shuffle shuffled_empty_labels
   \<and> map_sum id (\<lambda>s. (length (label_list s), length (features s))) (load shuffled_empty_labels)
       = Inr (0, 1)
   \<and> initialize [0] shuffled_empty_labels \<noteq> Inl ConfigurationError"
  by (simp add: run_defs shuffled_empty_labels_def)

text \<open>
  Claim C9, amended: when the files load, shuffling is requested and the label array is not
  empty and differs in length from the feature windows, \<^verbatim>\<open>initialize\<close> fails with
  ConfigurationError and nothing else; with an empty label array it returns, the features
  rearranged alone.
\<close>

theorem shuffle_length_mismatch:
  assumes "load s = Inr s1" and "do_shuffle s"
  shows "(label_list s1 \<noteq> [] \<and> length (label_list s1) \<noteq> length (features s1) \<longrightarrow>
            initialize p s = Inl ConfigurationError)
       \<and> (label_list s1 = [] \<longrightarrow>
            initialize p s = Inr (s1\<lparr>features := permute p (features s1), index := 0\<rparr>))"
proof -
  from load_frame [OF assms(1)] assms(2) have flag: "do_shuffle s1"
    by simp
  show ?thesis
  proof (intro conjI impI)
    assume "label_list s1 \<noteq> [] \<and> length (label_list s1) \<noteq> length (features s1)"
    then have "shuffle_stage p s1 = Inl ConfigurationError"
      using flag by (auto simp: shuffle_stage_def shuffle2_def)
    then show "initialize p s = Inl ConfigurationError"
      by (simp add: initialize_def assms(1))
  next
    assume none: "label_list s1 = []"
    then have "shuffle_stage p s1 = Inr (s1\<lparr>features := permute p (features s1)\<rparr>)"
      using flag by (simp add: shuffle_stage_def shuffle1_def)
    moreover from none have "label_list (s1\<lparr>features := permute p (features s1)\<rparr>) = []"
      by (simp add: label_list_def)
    ultimately show "initialize p s = Inr (s1\<lparr>features := permute p (features s1), index := 0\<rparr>)"
      by (simp add: initialize_def assms(1) balance_stage_no_labels)
  qed
qed

text \<open>Two labels for one window fail; no labels for one window do not.\<close>

theorem shuffle_length_mismatch_witness:
  "load shuffled_mismatch =
     Inr (shuffled_mismatch\<lparr>features := [[[5]]], labels := Some [''a'', ''b''],
            n_features := Some 1, n_samples := 1\<rparr>)
   \<and> do_shuffle shuffled_mismatch
   \<and> initialize [0] shuffled_mismatch = Inl ConfigurationError
   \<and> load shuffled_empty_labels =
       Inr (shuffled_empty_labels\<lparr>features := [[[5]]], labels := Some [],
              n_features := Some 1, n_samples := 1\<rparr>)
   \<and> do_shuffle shuffled_empty_labels
   \<and> initialize [0] shuffled_empty_labels =
       Inr (shuffled_empty_labels\<lparr>features := [[[5]]], labels := Some [],
              n_features := Some 1, n_samples := 1\<rparr>)"
proof -
  have run: "load shuffled_mismatch =
     Inr (shuffled_mismatch\<lparr>features := [[[5]]], labels := Some [''a'', ''b''],
            n_features := Some 1, n_samples := 1\<rparr>)"
    by (simp add: run_defs shuffled_mismatch_def)
  have flag: "do_shuffle shuffled_mismatch"
    by (simp add: shuffled_mismatch_def new_streamer_def)
  have run': "load shuffled_empty_labels =
       Inr (shuffled_empty_labels\<lparr>features := [[[5]]], labels := Some [],
              n_features := Some 1, n_samples := 1\<rparr>)"
    by (simp add: run_defs shuffled_empty_labels_def)
  have flag': "do_shuffle shuffled_empty_labels"
    by (simp add: shuffled_empty_labels_def new_streamer_def)
  from shuffle_length_mismatch [OF run flag, of "[0]"]
    shuffle_length_mismatch [OF run' flag', of "[0]"] run flag run' flag'
  show ?thesis
    by (simp add: label_list_def permute_def shuffled_empty_labels_def new_streamer_def)
qed

end
